theory Spec2Isabelle
  imports Main "HOL-Library.Word"
begin

unbundle bit_operations_syntax

section \<open>The packet decoder of binary\_parser.py\<close>

text \<open>
  Wire format (docstring of the module): magic \<open>0xCAFE\<close> (2 bytes, big endian), packet type
  (1 byte), payload length (2 bytes, big endian), payload, checksum (1 byte, XOR of all the
  bytes before it).
\<close>

subsection \<open>Python values and exceptions\<close>

type_synonym byte = "8 word"

text \<open>
  The argument of \<open>parse_packet\<close> is any Python object. Only \<open>bytes\<close> passes
  \<open>isinstance(data, bytes)\<close>; a \<open>bytearray\<close> holds bytes too but is not an instance of it.
\<close>

datatype pyval =
    PyBytes "byte list"
  | PyByteArray "byte list"
  | PyStr string
  | PyInt int
  | PyNone


text \<open>
  \<open>ParsingError\<close> carries a formatted message in the source; the message kinds are kept
  apart here, each with the values its f-string prints. \<open>PayloadTooLarge\<close> is the message of
  the check that lines 69-70 hold commented out.
\<close>

datatype parsing_error =
    InsufficientHeader nat       \<comment> \<open>line 52: \<open>len(data)\<close>\<close>
  | InvalidMagic nat             \<comment> \<open>line 57: \<open>magic\<close>\<close>
  | UnknownType byte             \<comment> \<open>line 62: \<open>packet_type\<close>\<close>
  | PayloadTooLarge nat nat      \<comment> \<open>line 70 (commented out): \<open>payload_len\<close>, \<open>MAX_PAYLOAD_SIZE\<close>\<close>
  | InsufficientBody nat nat     \<comment> \<open>line 78: \<open>expected_total_len\<close>, \<open>len(data)\<close>\<close>
  | ChecksumMismatch byte byte   \<comment> \<open>line 94: \<open>expected_checksum\<close>, \<open>actual_checksum\<close>\<close>
  | EmptyCommandPayload          \<comment> \<open>line 110\<close>

text \<open>
  The exception classes: the module's own \<open>ParsingError\<close>, the \<open>TypeError\<close> of line 44, and
  the faults the fuzzing harness watches for (fuzzer.py, line 33).
\<close>

datatype exn =
    ParsingError parsing_error
  | TypeError
  | IndexError
  | StructError
  | OverflowError

definition MAGIC_NUMBER :: nat where
  "MAGIC_NUMBER = 0xCAFE"

definition MAX_PAYLOAD_SIZE :: nat where
  "MAX_PAYLOAD_SIZE = 1024"

subsection \<open>calculate\_checksum\<close>

fun xor_loop :: "byte \<Rightarrow> byte list \<Rightarrow> byte" where
  "xor_loop checksum [] = checksum"
| "xor_loop checksum (byte # rest) = xor_loop (checksum XOR byte) rest"

definition calculate_checksum :: "byte list \<Rightarrow> byte" where
  "calculate_checksum data_bytes = xor_loop 0 data_bytes"

subsection \<open>The decoded packet\<close>

text \<open>The dictionary that \<open>parse_packet\<close> returns; the key \<open>command_code\<close> is optional.\<close>

record packet =
  magic :: nat
  packet_type :: byte
  payload_len :: nat
  payload :: "byte list"
  checksum :: byte
  command_code :: "byte option"

subsection \<open>Computations that log their reads of the buffer\<close>

text \<open>
  Every expression \<open>data[lo:hi]\<close> and \<open>data[i]\<close> of the source is logged, in the order of
  evaluation, so that a statement can say which bytes of the buffer a run has looked at.
  A computation is the log together with the exception raised or the value returned.
\<close>

datatype access = Slice nat nat | Index nat

type_synonym 'a traced = "access list \<times> (exn + 'a)"

definition ret :: "'a \<Rightarrow> 'a traced" where
  "ret x = ([], Inr x)"

definition raise :: "exn \<Rightarrow> 'a traced" where
  "raise e = ([], Inl e)"

definition lift :: "exn + 'a \<Rightarrow> 'a traced" where
  "lift r = ([], r)"

definition then_do :: "'a traced \<Rightarrow> ('a \<Rightarrow> 'b traced) \<Rightarrow> 'b traced" where
  "then_do m f =
     (case m of
        (t, Inl e) \<Rightarrow> (t, Inl e)
      | (t, Inr x) \<Rightarrow> (case f x of (t', r) \<Rightarrow> (t @ t', r)))"

text \<open>
  An access that stays inside a buffer of \<open>n\<close> bytes: a slice that Python does not have to
  clip, an index that does not raise.
\<close>

definition in_range :: "nat \<Rightarrow> access \<Rightarrow> bool" where
  "in_range n a = (case a of Slice lo hi \<Rightarrow> lo \<le> hi \<and> hi \<le> n | Index i \<Rightarrow> i < n)"

text \<open>\<open>xs[lo:hi]\<close> for \<open>0 \<le> lo\<close>, \<open>0 \<le> hi\<close>: Python clips the slice to the sequence.\<close>

definition pyslice :: "'a list \<Rightarrow> nat \<Rightarrow> nat \<Rightarrow> 'a list" where
  "pyslice xs lo hi = take (hi - lo) (drop lo xs)"

text \<open>\<open>xs[i]\<close> for \<open>0 \<le> i\<close>: out of range raises \<open>IndexError\<close>.\<close>

definition item :: "'a list \<Rightarrow> nat \<Rightarrow> exn + 'a" where
  "item xs i = (if i < length xs then Inr (xs ! i) else Inl IndexError)"

definition getslice :: "byte list \<Rightarrow> nat \<Rightarrow> nat \<Rightarrow> byte list traced" where
  "getslice data lo hi = ([Slice lo hi], Inr (pyslice data lo hi))"

definition getitem :: "byte list \<Rightarrow> nat \<Rightarrow> byte traced" where
  "getitem data i = ([Index i], item data i)"

text \<open>\<open>struct.unpack(">H", b)[0]\<close>: \<open>struct.error\<close> unless \<open>b\<close> has exactly two bytes.\<close>

definition unpack_H :: "byte list \<Rightarrow> exn + nat" where
  "unpack_H b =
     (case b of
        [hi, lo] \<Rightarrow> Inr (256 * unat hi + unat lo)
      | _ \<Rightarrow> Inl StructError)"

subsection \<open>parse\_packet\<close>

text \<open>Lines 51-116, for an argument that is \<open>bytes\<close>.\<close>

definition parse_bytes :: "byte list \<Rightarrow> packet traced" where
  "parse_bytes data =
    (if length data < 5 then raise (ParsingError (InsufficientHeader (length data)))
     else
     then_do (getslice data 0 2) (\<lambda>b01.
     then_do (lift (unpack_H b01)) (\<lambda>magic.
     if magic \<noteq> MAGIC_NUMBER then raise (ParsingError (InvalidMagic magic))
     else
     then_do (getitem data 2) (\<lambda>packet_type.
     if packet_type \<notin> set [0x01, 0x02, 0x03] then raise (ParsingError (UnknownType packet_type))
     else
     then_do (getslice data 3 5) (\<lambda>b34.
     then_do (lift (unpack_H b34)) (\<lambda>payload_len.
     let expected_total_len = 2 + 1 + 2 + payload_len + 1 in
     if length data < expected_total_len
     then raise (ParsingError (InsufficientBody expected_total_len (length data)))
     else
     let payload_start = 5;
         payload_end = payload_start + payload_len in
     then_do (getslice data payload_start payload_end) (\<lambda>payload.
     then_do (getslice data 0 payload_end) (\<lambda>summed.
     let expected_checksum = calculate_checksum summed in
     then_do (getitem data payload_end) (\<lambda>actual_checksum.
     if expected_checksum \<noteq> actual_checksum
     then raise (ParsingError (ChecksumMismatch expected_checksum actual_checksum))
     else
     let result = \<lparr>magic = magic, packet_type = packet_type, payload_len = payload_len,
                   payload = payload, checksum = actual_checksum, command_code = None\<rparr> in
     if packet_type = 0x02 then
       if payload_len = 0 \<or> length payload < 1
       then raise (ParsingError EmptyCommandPayload)
       else then_do (lift (item payload 0)) (\<lambda>command_code.
            ret (result\<lparr>command_code := Some command_code\<rparr>))
     else ret result)))))))))"

text \<open>Lines 43-44 first: anything that is not \<open>bytes\<close> raises \<open>TypeError\<close>.\<close>

definition parse_packet_traced :: "pyval \<Rightarrow> packet traced" where
  "parse_packet_traced data =
     (case data of
        PyBytes bs \<Rightarrow> parse_bytes bs
      | _ \<Rightarrow> raise TypeError)"

definition parse_packet :: "pyval \<Rightarrow> exn + packet" where
  "parse_packet data = snd (parse_packet_traced data)"

definition parse_packet_reads :: "pyval \<Rightarrow> access list" where
  "parse_packet_reads data = fst (parse_packet_traced data)"

subsection \<open>Building a packet\<close>

text \<open>
  \<open>struct.pack(">HBH", magic, t, n)\<close> as the example of lines 121-126 calls it:
  \<open>struct.error\<close> when a field does not fit its width.
\<close>

definition pack_HBH :: "nat \<Rightarrow> nat \<Rightarrow> nat \<Rightarrow> exn + byte list" where
  "pack_HBH m t n =
     (if m < 65536 \<and> t < 256 \<and> n < 65536
      then Inr [of_nat (m div 256), of_nat (m mod 256), of_nat t,
                of_nat (n div 256), of_nat (n mod 256)]
      else Inl StructError)"

text \<open>Lines 121-126: header, payload, then the checksum of both.\<close>

definition build_packet :: "nat \<Rightarrow> byte list \<Rightarrow> exn + byte list" where
  "build_packet t valid_payload =
     (case pack_HBH MAGIC_NUMBER t (length valid_payload) of
        Inl e \<Rightarrow> Inl e
      | Inr header \<Rightarrow>
          (let packet_data_no_checksum = header @ valid_payload;
               checksum = calculate_checksum packet_data_no_checksum
           in Inr (packet_data_no_checksum @ [checksum])))"

subsection \<open>The fuzzing harness\<close>




section \<open>Properties\<close>

subsection \<open>The decoder as a chain of checks\<close>

lemma take2_nth: "2 \<le> length (d::'a list) \<Longrightarrow> take 2 d = [d ! 0, d ! 1]"
  by (cases d; simp; cases "tl d"; simp)

lemma take2_drop3_nth: "5 \<le> length (d::'a list) \<Longrightarrow> take 2 (drop 3 d) = [d ! 3, d ! 4]"
  using take2_nth [of "drop 3 d"] by simp

lemma parse_bytes_short:
  "length d < 5 \<Longrightarrow> parse_bytes d = ([], Inl (ParsingError (InsufficientHeader (length d))))"
  by (simp add: parse_bytes_def raise_def)

text \<open>
  With five bytes or more, no slice is clipped and no index raises: the run is decided by
  the five checks, in the order of the source, and the log grows with each read.
\<close>

lemma parse_bytes_unfold:
  assumes "5 \<le> length d"
  shows "parse_bytes d =
    (let m = 256 * unat (d ! 0) + unat (d ! 1); t = d ! 2; n = 256 * unat (d ! 3) + unat (d ! 4) in
     if m \<noteq> MAGIC_NUMBER then ([Slice 0 2], Inl (ParsingError (InvalidMagic m)))
     else if t \<noteq> 1 \<and> t \<noteq> 2 \<and> t \<noteq> 3 then ([Slice 0 2, Index 2], Inl (ParsingError (UnknownType t)))
     else if length d < 5 + n + 1
       then ([Slice 0 2, Index 2, Slice 3 5], Inl (ParsingError (InsufficientBody (5 + n + 1) (length d))))
     else if calculate_checksum (take (5 + n) d) \<noteq> d ! (5 + n)
       then ([Slice 0 2, Index 2, Slice 3 5, Slice 5 (5 + n), Slice 0 (5 + n), Index (5 + n)],
             Inl (ParsingError (ChecksumMismatch (calculate_checksum (take (5 + n) d)) (d ! (5 + n)))))
     else if t = 2 \<and> n = 0
       then ([Slice 0 2, Index 2, Slice 3 5, Slice 5 (5 + n), Slice 0 (5 + n), Index (5 + n)],
             Inl (ParsingError EmptyCommandPayload))
     else ([Slice 0 2, Index 2, Slice 3 5, Slice 5 (5 + n), Slice 0 (5 + n), Index (5 + n)],
           Inr \<lparr>magic = m, packet_type = t, payload_len = n, payload = take n (drop 5 d),
                checksum = d ! (5 + n),
                command_code = (if t = 2 then Some (d ! 5) else None)\<rparr>))"
  using assms
  by (simp add: parse_bytes_def then_do_def lift_def getslice_def getitem_def pyslice_def item_def
      unpack_H_def ret_def raise_def take2_nth take2_drop3_nth Let_def)

text \<open>Exactly the buffers that decode, and what they decode to.\<close>

lemma parse_packet_Inr_iff:
  "parse_packet (PyBytes d) = Inr p \<longleftrightarrow>
     5 \<le> length d \<and> 256 * unat (d ! 0) + unat (d ! 1) = MAGIC_NUMBER
     \<and> d ! 2 \<in> {1, 2, 3}
     \<and> 5 + (256 * unat (d ! 3) + unat (d ! 4)) + 1 \<le> length d
     \<and> calculate_checksum (take (5 + (256 * unat (d ! 3) + unat (d ! 4))) d)
         = d ! (5 + (256 * unat (d ! 3) + unat (d ! 4)))
     \<and> \<not> (d ! 2 = 2 \<and> 256 * unat (d ! 3) + unat (d ! 4) = 0)
     \<and> p = \<lparr>magic = 256 * unat (d ! 0) + unat (d ! 1), packet_type = d ! 2,
             payload_len = 256 * unat (d ! 3) + unat (d ! 4),
             payload = take (256 * unat (d ! 3) + unat (d ! 4)) (drop 5 d),
             checksum = d ! (5 + (256 * unat (d ! 3) + unat (d ! 4))),
             command_code = (if d ! 2 = 2 then Some (d ! 5) else None)\<rparr>"
proof (cases "length d < 5")
  case True
  then show ?thesis
    by (simp add: parse_packet_def parse_packet_traced_def parse_bytes_short)
next
  case False
  then have "5 \<le> length d" by simp
  then show ?thesis
    by (auto simp add: parse_packet_def parse_packet_traced_def parse_bytes_unfold Let_def)
qed

subsection \<open>The checksum loop\<close>

lemma xor_loop_fold: "xor_loop acc xs = fold (XOR) xs acc"
  by (induction xs arbitrary: acc) (simp_all add: xor.commute)

lemma xor_loop_append: "xor_loop acc (xs @ ys) = xor_loop (xor_loop acc xs) ys"
  by (induction xs arbitrary: acc) simp_all

lemma xor_loop_replicate_zero: "xor_loop acc (replicate k 0) = acc"
  by (induction k) simp_all


subsection \<open>Framing\<close>

lemma be16_split: "n < 65536 \<Longrightarrow>
  256 * unat (of_nat (n div 256) :: byte) + unat (of_nat (n mod 256) :: byte) = n"
  by (simp add: unat_of_nat)

lemma take_frame: "length h = k \<Longrightarrow> take (k + length pl) (h @ pl @ z) = h @ pl"
  by simp

lemma nth_frame: "length h = k \<Longrightarrow> (h @ pl @ c # z) ! (k + length pl) = c"
  by (simp add: nth_append)

subsection \<open>Runs on concrete buffers\<close>

lemmas run_defs = parse_packet_def parse_packet_reads_def parse_packet_traced_def
  parse_bytes_unfold parse_bytes_short calculate_checksum_def MAGIC_NUMBER_def Let_def

text \<open>The valid packet of lines 121-133: type DATA, payload \<open>b"Hello Fuzzing!"\<close>.\<close>

lemma run_valid_packet:
  "build_packet 1 [0x48, 0x65, 0x6C, 0x6C, 0x6F, 0x20, 0x46, 0x75, 0x7A, 0x7A, 0x69, 0x6E, 0x67, 0x21]
     = Inr [0xCA, 0xFE, 0x01, 0x00, 0x0E, 0x48, 0x65, 0x6C, 0x6C, 0x6F, 0x20, 0x46, 0x75, 0x7A,
            0x7A, 0x69, 0x6E, 0x67, 0x21, 0x2B]"
  "parse_packet (PyBytes [0xCA, 0xFE, 0x01, 0x00, 0x0E, 0x48, 0x65, 0x6C, 0x6C, 0x6F, 0x20, 0x46,
                          0x75, 0x7A, 0x7A, 0x69, 0x6E, 0x67, 0x21, 0x2B])
     = Inr \<lparr>magic = 0xCAFE, packet_type = 1, payload_len = 14,
            payload = [0x48, 0x65, 0x6C, 0x6C, 0x6F, 0x20, 0x46, 0x75, 0x7A, 0x7A, 0x69, 0x6E,
                       0x67, 0x21],
            checksum = 0x2B, command_code = None\<rparr>"
  by (simp_all add: run_defs build_packet_def pack_HBH_def)

text \<open>A CMD packet with command code 7 and one argument byte.\<close>

lemma run_cmd:
  "parse_packet (PyBytes [0xCA, 0xFE, 0x02, 0, 2, 7, 8, 0x3B]) =
   Inr \<lparr>magic = 0xCAFE, packet_type = 2, payload_len = 2, payload = [7, 8], checksum = 0x3B,
        command_code = Some 7\<rparr>"
  by (simp add: run_defs)

lemma run_big_checksum:
  "calculate_checksum ([0xCA, 0xFE, 0x01, 0x04, 0x01] @ replicate 1025 0) = 0x30"
  by (simp add: calculate_checksum_def xor_loop_append xor_loop_replicate_zero)

section \<open>The claims\<close>

text \<open>
  C1. For every \<open>bytes\<close> argument, \<open>parse_packet\<close> returns a packet or raises
  \<open>ParsingError\<close>: never \<open>IndexError\<close>, \<open>struct.error\<close> or \<open>OverflowError\<close>, whatever the
  length of the buffer. Every read it makes of the buffer is in range.
\<close>

theorem parse_packet_bytes_categorized:
  "((\<exists>p. parse_packet (PyBytes d) = Inr p) \<or> (\<exists>e. parse_packet (PyBytes d) = Inl (ParsingError e)))
   \<and> (\<forall>a \<in> set (parse_packet_reads (PyBytes d)). in_range (length d) a)"
proof (cases "length d < 5")
  case True
  then show ?thesis
    by (simp add: parse_packet_def parse_packet_reads_def parse_packet_traced_def parse_bytes_short)
next
  case False
  then have "5 \<le> length d" by simp
  then show ?thesis
    by (simp add: parse_packet_def parse_packet_reads_def parse_packet_traced_def
        parse_bytes_unfold Let_def in_range_def)
qed

theorem parse_packet_bytes_categorized_witness:
  "((\<exists>p. parse_packet (PyBytes [0xCA, 0xFE, 0x02, 0, 0, 0x36]) = Inr p)
     \<or> (\<exists>e. parse_packet (PyBytes [0xCA, 0xFE, 0x02, 0, 0, 0x36]) = Inl (ParsingError e)))
   \<and> list_all (in_range 6) (parse_packet_reads (PyBytes [0xCA, 0xFE, 0x02, 0, 0, 0x36]))"
proof -
  have six: "length [0xCA, 0xFE, 0x02, 0, 0, 0x36 :: byte] = 6" by simp
  show ?thesis
    using parse_packet_bytes_categorized [of "[0xCA, 0xFE, 0x02, 0, 0, 0x36]"]
    unfolding six list_all_iff by blast
qed




text \<open>
  C3. A buffer of fewer than 5 bytes fails with \<open>InsufficientHeader\<close>, which carries the length
  of the buffer, and no field of it is read.
\<close>

theorem parse_packet_short_header:
  "length d < 5 \<Longrightarrow>
     parse_packet (PyBytes d) = Inl (ParsingError (InsufficientHeader (length d)))
     \<and> parse_packet_reads (PyBytes d) = []"
  by (simp add: parse_packet_def parse_packet_reads_def parse_packet_traced_def parse_bytes_short)

theorem parse_packet_short_header_witness:
  "parse_packet (PyBytes [0xCA, 0xFE, 0x01]) = Inl (ParsingError (InsufficientHeader 3))
   \<and> parse_packet_reads (PyBytes [0xCA, 0xFE, 0x01]) = []"
  using parse_packet_short_header [of "[0xCA, 0xFE, 0x01]"] by simp

text \<open>
  C4. A buffer of at least 5 bytes with the right magic and a known type, too short for the
  payload length \<open>n\<close> it declares (\<open>len(data) < 5 + n + 1\<close>), fails with \<open>InsufficientBody\<close>
  whose expected length is \<open>5 + n + 1\<close> and whose available length is \<open>len(data)\<close>. Up to
  there only the three header fields are read: no payload byte, no checksum byte.
\<close>

theorem parse_packet_insufficient_body:
  assumes "5 \<le> length d" "d ! 0 = 0xCA" "d ! 1 = 0xFE" "d ! 2 \<in> {0x01, 0x02, 0x03}"
    and "n = 256 * unat (d ! 3) + unat (d ! 4)"
    and "length d < 5 + n + 1"
  shows "parse_packet (PyBytes d) = Inl (ParsingError (InsufficientBody (5 + n + 1) (length d)))
     \<and> parse_packet_reads (PyBytes d) = [Slice 0 2, Index 2, Slice 3 5]"
  using assms
  by (auto simp add: parse_packet_def parse_packet_reads_def parse_packet_traced_def
        parse_bytes_unfold Let_def MAGIC_NUMBER_def)

theorem parse_packet_insufficient_body_witness:
  "parse_packet (PyBytes [0xCA, 0xFE, 0x01, 0x00, 0x0E, 0x48])
     = Inl (ParsingError (InsufficientBody 20 6))
   \<and> parse_packet_reads (PyBytes [0xCA, 0xFE, 0x01, 0x00, 0x0E, 0x48])
     = [Slice 0 2, Index 2, Slice 3 5]"
  using parse_packet_insufficient_body [of "[0xCA, 0xFE, 0x01, 0x00, 0x0E, 0x48]" 14] by simp

text \<open>
  C5. For a buffer that passes the header, magic, type and total length checks, let \<open>x\<close> be
  the XOR of all the bytes of \<open>data[0 : 5 + n]\<close>, folded from 0. The decoder succeeds only if
  the byte at offset \<open>5 + n\<close> is \<open>x\<close>; otherwise it fails with \<open>ChecksumMismatch\<close>, which
  carries \<open>x\<close> and the byte found.
\<close>

theorem parse_packet_checksum_check:
  assumes "5 \<le> length d" "d ! 0 = 0xCA" "d ! 1 = 0xFE" "d ! 2 \<in> {0x01, 0x02, 0x03}"
    and "n = 256 * unat (d ! 3) + unat (d ! 4)"
    and "5 + n + 1 \<le> length d"
    and "x = fold (XOR) (pyslice d 0 (5 + n)) 0"
  shows "((\<exists>p. parse_packet (PyBytes d) = Inr p) \<longrightarrow> d ! (5 + n) = x)
     \<and> (d ! (5 + n) \<noteq> x \<longrightarrow>
          parse_packet (PyBytes d) = Inl (ParsingError (ChecksumMismatch x (d ! (5 + n)))))"
  using assms
  by (auto simp add: parse_packet_def parse_packet_traced_def pyslice_def
        parse_bytes_unfold Let_def MAGIC_NUMBER_def calculate_checksum_def xor_loop_fold)

theorem parse_packet_checksum_check_witness:
  "parse_packet (PyBytes [0xCA, 0xFE, 0x01, 0, 1, 0x41, 0x00])
     = Inl (ParsingError (ChecksumMismatch 0x75 0x00))
   \<and> (\<exists>p. parse_packet (PyBytes [0xCA, 0xFE, 0x01, 0, 1, 0x41, 0x75]) = Inr p)
   \<and> [0xCA, 0xFE, 0x01, 0, 1, 0x41, 0x75 :: byte] ! 6
     = fold (XOR) (pyslice [0xCA, 0xFE, 0x01, 0, 1, 0x41, 0x75] 0 6) 0"
proof -
  have ok: "\<exists>p. parse_packet (PyBytes [0xCA, 0xFE, 0x01, 0, 1, 0x41, 0x75]) = Inr p"
    by (simp add: run_defs)
  show ?thesis
    using parse_packet_checksum_check [of "[0xCA, 0xFE, 0x01, 0, 1, 0x41, 0x00]" 1 "0x75"]
      parse_packet_checksum_check [of "[0xCA, 0xFE, 0x01, 0, 1, 0x41, 0x75]" 1 "0x75"] ok
    by (simp add: pyslice_def)
qed

text \<open>
  C6. Round trip. For a packet type among 1, 2, 3 and a payload of at most 65535 bytes (not
  empty for CMD), the buffer built as in lines 121-126 is magic \<open>CA FE\<close>, the type, the length
  in big endian, the payload, and one more byte: the XOR of all the bytes before it, folded
  from 0. \<open>parse_packet\<close> decodes that buffer, and gives back the type, the length and the
  payload (and the magic and the checksum byte).
\<close>

theorem build_parse_roundtrip:
  assumes "t \<in> {0x01, 0x02, 0x03}" "length pl \<le> 65535" "t = 0x02 \<longrightarrow> pl \<noteq> []"
  shows "\<exists>buf p. build_packet t pl = Inr buf
     \<and> buf = [0xCA, 0xFE, of_nat t, of_nat (length pl div 256), of_nat (length pl mod 256)]
              @ pl
              @ [fold (XOR) ([0xCA, 0xFE, of_nat t, of_nat (length pl div 256),
                              of_nat (length pl mod 256)] @ pl) 0]
     \<and> parse_packet (PyBytes buf) = Inr p
     \<and> magic p = 0xCAFE \<and> packet_type p = of_nat t \<and> payload_len p = length pl
     \<and> payload p = pl \<and> checksum p = last buf"
proof -
  let ?n = "length pl"
  let ?h = "[0xCA, 0xFE, of_nat t, of_nat (?n div 256), of_nat (?n mod 256)] :: byte list"
  let ?x = "fold (XOR) (?h @ pl) 0 :: byte"
  define buf where "buf = ?h @ pl @ [?x]"
  have x: "calculate_checksum (?h @ pl) = ?x"
    by (simp only: calculate_checksum_def xor_loop_fold)
  have n: "?n < 65536" using assms(2) by simp
  have "pack_HBH MAGIC_NUMBER t ?n = Inr ?h"
    using assms(1) n by (auto simp add: pack_HBH_def MAGIC_NUMBER_def)
  then have "build_packet t pl = Inr (?h @ pl @ [calculate_checksum (?h @ pl)])"
    by (simp add: build_packet_def Let_def)
  then have b: "build_packet t pl = Inr buf"
    by (simp only: x buf_def)
  have hd: "buf ! 0 = 0xCA" "buf ! 1 = 0xFE" "buf ! 2 = of_nat t"
    "buf ! 3 = of_nat (?n div 256)" "buf ! 4 = of_nat (?n mod 256)"
    by (simp_all add: buf_def)
  have l: "length buf = 5 + ?n + 1" by (simp add: buf_def)
  have tk: "take (5 + ?n) buf = ?h @ pl"
    unfolding buf_def by (rule take_frame) simp
  have ck: "buf ! (5 + ?n) = ?x"
    unfolding buf_def by (rule nth_frame) simp
  have la: "last buf = ?x" by (simp add: buf_def)
  have dr: "take ?n (drop 5 buf) = pl" by (simp add: buf_def)
  have t3: "(of_nat t :: byte) \<in> {1, 2, 3}" using assms(1) by auto
  have t2: "(of_nat t :: byte) = 2 \<longrightarrow> ?n \<noteq> 0" using assms(1,3) by auto
  have "\<exists>p. parse_packet (PyBytes buf) = Inr p
     \<and> magic p = 0xCAFE \<and> packet_type p = of_nat t \<and> payload_len p = length pl
     \<and> payload p = pl \<and> checksum p = last buf"
    unfolding parse_packet_Inr_iff hd be16_split [OF n] tk ck la x
    using t3 t2 by (simp add: MAGIC_NUMBER_def l dr)
  moreover have "buf = ?h @ pl @ [?x]" by (rule buf_def)
  ultimately show ?thesis using b by blast
qed

theorem build_parse_roundtrip_witness:
  "build_packet 2 [7, 8] = Inr [0xCA, 0xFE, 0x02, 0, 2, 7, 8, 0x3B]
   \<and> (\<exists>p. parse_packet (PyBytes [0xCA, 0xFE, 0x02, 0, 2, 7, 8, 0x3B]) = Inr p
        \<and> packet_type p = 2 \<and> payload_len p = 2 \<and> payload p = [7, 8] \<and> checksum p = 0x3B)
   \<and> build_packet 1 [0x48, 0x69] = Inr [0xCA, 0xFE, 0x01, 0, 2, 0x48, 0x69, 0x16]
   \<and> (\<exists>p. parse_packet (PyBytes [0xCA, 0xFE, 0x01, 0, 2, 0x48, 0x69, 0x16]) = Inr p
        \<and> packet_type p = 1 \<and> payload_len p = 2 \<and> payload p = [0x48, 0x69]
        \<and> checksum p = 0x16)"
  using build_parse_roundtrip [of 2 "[7, 8]"] build_parse_roundtrip [of 1 "[0x48, 0x69]"]
  by auto

text \<open>
  C7. In a buffer that decodes, putting any other value \<open>v\<close> in place of the checksum byte
  (offset \<open>5 + payload_len\<close>) turns the success into \<open>ChecksumMismatch\<close>: expected the old
  checksum, found \<open>v\<close>.
\<close>

theorem parse_packet_checksum_mutation:
  assumes "parse_packet (PyBytes d) = Inr p" "v \<noteq> d ! (5 + payload_len p)"
  shows "parse_packet (PyBytes (d[5 + payload_len p := v]))
           = Inl (ParsingError (ChecksumMismatch (checksum p) v))"
proof -
  let ?n = "256 * unat (d ! 3) + unat (d ! 4)"
  from assms(1) have h: "5 \<le> length d" "256 * unat (d ! 0) + unat (d ! 1) = MAGIC_NUMBER"
    "d ! 2 \<in> {1, 2, 3}" "5 + ?n + 1 \<le> length d"
    "calculate_checksum (take (5 + ?n) d) = d ! (5 + ?n)"
    "payload_len p = ?n" "checksum p = d ! (5 + ?n)"
    by (simp_all add: parse_packet_Inr_iff)
  let ?d = "d[5 + ?n := v]"
  have "5 \<le> length ?d" using h(1) by simp
  then show ?thesis
    using h assms(2)
    by (auto simp add: parse_packet_def parse_packet_traced_def parse_bytes_unfold Let_def)
qed

theorem parse_packet_checksum_mutation_witness:
  "(\<exists>p. parse_packet (PyBytes [0xCA, 0xFE, 0x02, 0, 2, 7, 8, 0x3B]) = Inr p)
   \<and> parse_packet (PyBytes ([0xCA, 0xFE, 0x02, 0, 2, 7, 8, 0x3B][7 := 0x3A]))
       = Inl (ParsingError (ChecksumMismatch 0x3B 0x3A))"
  using parse_packet_checksum_mutation [OF run_cmd, of "0x3A"] run_cmd by simp

text \<open>
  C8. A CMD packet (type 2) that declares an empty payload and passes the magic, type, total
  length and checksum checks fails with \<open>EmptyCommandPayload\<close>, a \<open>ParsingError\<close> and not an
  \<open>IndexError\<close>. Every CMD packet that decodes has a payload, and its \<open>command_code\<close> is the
  first payload byte.
\<close>

theorem parse_packet_cmd_payload:
  "(5 \<le> length d \<and> d ! 0 = 0xCA \<and> d ! 1 = 0xFE \<and> d ! 2 = 0x02 \<and> d ! 3 = 0 \<and> d ! 4 = 0
      \<and> 5 + 0 + 1 \<le> length d \<and> d ! 5 = calculate_checksum (pyslice d 0 5)
    \<longrightarrow> parse_packet (PyBytes d) = Inl (ParsingError EmptyCommandPayload))
   \<and> (parse_packet (PyBytes d) = Inr p \<and> packet_type p = 0x02
    \<longrightarrow> payload p \<noteq> [] \<and> command_code p = Some (payload p ! 0))"
proof (intro conjI impI)
  assume "5 \<le> length d \<and> d ! 0 = 0xCA \<and> d ! 1 = 0xFE \<and> d ! 2 = 0x02 \<and> d ! 3 = 0 \<and> d ! 4 = 0
      \<and> 5 + 0 + 1 \<le> length d \<and> d ! 5 = calculate_checksum (pyslice d 0 5)"
  then show "parse_packet (PyBytes d) = Inl (ParsingError EmptyCommandPayload)"
    by (simp add: parse_packet_def parse_packet_traced_def parse_bytes_unfold Let_def
        MAGIC_NUMBER_def pyslice_def)
next
  assume a: "parse_packet (PyBytes d) = Inr p \<and> packet_type p = 0x02"
  let ?n = "256 * unat (d ! 3) + unat (d ! 4)"
  from a have ok: "parse_packet (PyBytes d) = Inr p" and ty: "packet_type p = 2"
    by simp_all
  from ok ty have h: "5 + ?n + 1 \<le> length d" "d ! 2 = 2" "?n \<noteq> 0"
    "payload p = take ?n (drop 5 d)" "command_code p = Some (d ! 5)"
    unfolding parse_packet_Inr_iff by auto
  from h(1,3,4) show "payload p \<noteq> []" by auto
  from h(1,3,4,5) show "command_code p = Some (payload p ! 0)" by simp
qed

theorem parse_packet_cmd_payload_witness:
  "parse_packet (PyBytes [0xCA, 0xFE, 0x02, 0, 0, 0x36]) = Inl (ParsingError EmptyCommandPayload)
   \<and> (\<exists>p. parse_packet (PyBytes [0xCA, 0xFE, 0x02, 0, 2, 7, 8, 0x3B]) = Inr p
        \<and> packet_type p = 2 \<and> payload p = [7, 8] \<and> command_code p = Some 7)"
  using parse_packet_cmd_payload [of "[0xCA, 0xFE, 0x02, 0, 0, 0x36]"]
    parse_packet_cmd_payload [of "[0xCA, 0xFE, 0x02, 0, 2, 7, 8, 0x3B]"
      "\<lparr>magic = 0xCAFE, packet_type = 2, payload_len = 2, payload = [7, 8], checksum = 0x3B,
        command_code = Some 7\<rparr>"] run_cmd
  by (simp add: pyslice_def calculate_checksum_def)

text \<open>
  C9. No maximum payload size is enforced. A buffer that is valid otherwise and declares a
  payload length \<open>n\<close> above \<open>MAX_PAYLOAD_SIZE\<close> (1024; \<open>n\<close> is at most 65535) decodes, with
  that length and that payload; and no argument at all fails with the size limit message of
  the check that the source holds commented out.
\<close>

theorem parse_packet_no_size_limit:
  "(5 \<le> length d \<and> d ! 0 = 0xCA \<and> d ! 1 = 0xFE \<and> d ! 2 \<in> {0x01, 0x02, 0x03}
      \<and> n = 256 * unat (d ! 3) + unat (d ! 4) \<and> MAX_PAYLOAD_SIZE < n
      \<and> 5 + n + 1 \<le> length d \<and> d ! (5 + n) = calculate_checksum (pyslice d 0 (5 + n))
    \<longrightarrow> n \<le> 65535 \<and> (\<exists>p. parse_packet (PyBytes d) = Inr p \<and> payload_len p = n
            \<and> payload p = pyslice d 5 (5 + n)))
   \<and> parse_packet v \<noteq> Inl (ParsingError (PayloadTooLarge a b))"
proof (intro conjI impI)
  assume a: "5 \<le> length d \<and> d ! 0 = 0xCA \<and> d ! 1 = 0xFE \<and> d ! 2 \<in> {0x01, 0x02, 0x03}
      \<and> n = 256 * unat (d ! 3) + unat (d ! 4) \<and> MAX_PAYLOAD_SIZE < n
      \<and> 5 + n + 1 \<le> length d \<and> d ! (5 + n) = calculate_checksum (pyslice d 0 (5 + n))"
  have "unat (d ! 3) < 256" "unat (d ! 4) < 256"
    using unsigned_less [of "d ! 3"] unsigned_less [of "d ! 4"] by simp_all
  with a show "n \<le> 65535" by simp
  from a show "\<exists>p. parse_packet (PyBytes d) = Inr p \<and> payload_len p = n
      \<and> payload p = pyslice d 5 (5 + n)"
    unfolding parse_packet_Inr_iff
    by (auto simp add: MAGIC_NUMBER_def MAX_PAYLOAD_SIZE_def pyslice_def)
next
  show "parse_packet v \<noteq> Inl (ParsingError (PayloadTooLarge a b))"
  proof (cases v)
    case (PyBytes d)
    show ?thesis
    proof (cases "length d < 5")
      case True
      then show ?thesis unfolding PyBytes
        by (simp add: parse_packet_def parse_packet_traced_def parse_bytes_short)
    next
      case False
      then have "5 \<le> length d" by simp
      then show ?thesis unfolding PyBytes
        by (simp add: parse_packet_def parse_packet_traced_def parse_bytes_unfold Let_def)
    qed
  qed (simp_all add: parse_packet_def parse_packet_traced_def raise_def)
qed

theorem parse_packet_no_size_limit_witness:
  "1025 \<le> (65535::nat)
   \<and> (\<exists>p. parse_packet (PyBytes ([0xCA, 0xFE, 0x01, 0x04, 0x01] @ replicate 1025 0 @ [0x30])) = Inr p
         \<and> payload_len p = 1025 \<and> payload p = replicate 1025 0)
   \<and> parse_packet (PyBytes [0xCA, 0xFE, 0x01, 0x04, 0x01])
        \<noteq> Inl (ParsingError (PayloadTooLarge 1025 MAX_PAYLOAD_SIZE))"
proof -
  let ?h = "[0xCA, 0xFE, 0x01, 0x04, 0x01] :: byte list"
  let ?d = "?h @ replicate 1025 0 @ [0x30]"
  have n: "length (replicate 1025 (0::byte)) = 1025" by simp
  have tk: "take (5 + 1025) ?d = ?h @ replicate 1025 0"
    using take_frame [of ?h 5 "replicate 1025 0" "[0x30]"] unfolding n by simp
  have ck: "?d ! (5 + 1025) = 0x30"
    using nth_frame [of ?h 5 "replicate 1025 0" "0x30" "[]"] unfolding n by simp
  have sl: "pyslice ?d 0 (5 + 1025) = ?h @ replicate 1025 0"
    using tk by (simp add: pyslice_def)
  have pl: "pyslice ?d 5 (5 + 1025) = replicate 1025 0"
    by (simp add: pyslice_def)
  have hyp: "5 \<le> length ?d \<and> ?d ! 0 = 0xCA \<and> ?d ! 1 = 0xFE \<and> ?d ! 2 \<in> {0x01, 0x02, 0x03}
      \<and> (1025::nat) = 256 * unat (?d ! 3) + unat (?d ! 4) \<and> MAX_PAYLOAD_SIZE < 1025
      \<and> 5 + 1025 + 1 \<le> length ?d
      \<and> ?d ! (5 + 1025) = calculate_checksum (pyslice ?d 0 (5 + 1025))"
    unfolding sl ck run_big_checksum by (simp add: MAX_PAYLOAD_SIZE_def)
  show ?thesis
    using parse_packet_no_size_limit [of ?d 1025 "PyBytes ?h" 1025 MAX_PAYLOAD_SIZE] hyp
    unfolding pl by blast
qed



end
